theory Spec2Isabelle
  imports Main "HOL-Library.AList"
begin

section \<open>Data model of the permit system (supabase/migrations/20250911100241_weathered_gate.sql)\<close>

text \<open>
  Every table of the migration is a list of rows, every row a record with one field per
  column, named \<open>table_column\<close>. A uuid is an opaque identifier, a timestamp or a date a
  number, \<open>text\<close> is \<open>string\<close>, \<open>text[]\<close> a list of strings, and a column without
  \<open>NOT NULL\<close> is an \<open>option\<close> (\<open>None\<close> is SQL's NULL). The \<open>jsonb\<close> capability vector
  of a role is the list of its key/value pairs, the \<open>jsonb\<close> materials of a permit the
  list of their descriptors. The display names \<open>name_en\<close> and
  \<open>name_ar\<close> of a region are left out: no policy, constraint or function reads them.
\<close>

type_synonym uuid = nat
type_synonym timestamptz = nat
type_synonym capabilities = "(string \<times> bool) list"

record role_permissions_row =
  role_permissions_id :: uuid
  role_permissions_role :: string
  role_permissions_permissions :: capabilities
  role_permissions_updated_at :: "timestamptz option"

record regions_row =
  regions_id :: uuid
  regions_code :: string
  regions_created_at :: "timestamptz option"

record users_row =
  users_id :: uuid
  users_username :: string
  users_password :: string
  users_email :: string
  users_first_name :: string
  users_last_name :: string
  users_region :: "string list"
  users_role :: string
  users_permissions :: "capabilities option"
  users_created_at :: "timestamptz option"
  users_last_login :: "timestamptz option"

record permits_row =
  permits_id :: uuid
  permits_permit_number :: string
  permits_date :: nat
  permits_region :: string
  permits_location :: string
  permits_carrier_name :: string
  permits_carrier_id :: string
  permits_request_type :: string
  permits_vehicle_plate :: string
  permits_materials :: "string list"
  permits_closed_by :: "uuid option"
  permits_closed_at :: "timestamptz option"
  permits_closed_by_name :: "string option"
  permits_can_reopen :: "bool option"
  permits_created_by :: uuid
  permits_created_at :: "timestamptz option"

record activity_logs_row =
  activity_logs_id :: uuid
  activity_logs_user_id :: uuid
  activity_logs_name :: string
  activity_logs_username :: string
  activity_logs_action :: string
  activity_logs_details :: string
  activity_logs_timestamp :: "timestamptz option"
  activity_logs_ip :: "string option"
  activity_logs_user_agent :: "string option"

record db =
  users :: "users_row list"
  permits :: "permits_row list"
  activity_logs :: "activity_logs_row list"
  role_permissions :: "role_permissions_row list"
  regions :: "regions_row list"

text \<open>The primary key of \<open>users\<close>: no two rows share an id.\<close>

definition users_pkey :: "db \<Rightarrow> bool" where
  "users_pkey d = distinct (map users_id (users d))"


section \<open>Row-level security policies\<close>

text \<open>
  \<open>auth.uid()\<close> is the identifier of the caller, NULL (\<open>None\<close>) without a session; a
  comparison with NULL is never true. \<open>a @> b\<close> on arrays holds when every element of
  \<open>b\<close> is an element of \<open>a\<close>. Each definition below is the \<open>USING\<close> or \<open>WITH CHECK\<close>
  expression of one policy, as a predicate on the database, the caller and the row, with
  its subquery \<open>EXISTS (SELECT 1 FROM users WHERE ...)\<close> evaluated over all rows of
  \<open>users\<close>: the value of the expression by itself. What a statement of a caller makes
  of these expressions, where the subquery is in turn a read of \<open>users\<close> under the
  policies of \<open>users\<close>, is the section on statements below.
\<close>

definition array_contains :: "string list \<Rightarrow> string list \<Rightarrow> bool" where
  "array_contains a b = (set b \<subseteq> set a)"

definition Users_can_read_own_data :: "db \<Rightarrow> uuid option \<Rightarrow> users_row \<Rightarrow> bool" where
  "Users_can_read_own_data d uid row = (uid = Some (users_id row))"

definition Admins_can_read_all_users :: "db \<Rightarrow> uuid option \<Rightarrow> users_row \<Rightarrow> bool" where
  "Admins_can_read_all_users d uid row =
     list_ex (\<lambda>u. Some (users_id u) = uid \<and> users_role u = ''admin'') (users d)"

definition Admins_can_create_users :: "db \<Rightarrow> uuid option \<Rightarrow> users_row \<Rightarrow> bool" where
  "Admins_can_create_users d uid row =
     list_ex (\<lambda>u. Some (users_id u) = uid \<and> users_role u = ''admin'') (users d)"

definition Admins_can_update_users :: "db \<Rightarrow> uuid option \<Rightarrow> users_row \<Rightarrow> bool" where
  "Admins_can_update_users d uid row =
     list_ex (\<lambda>u. Some (users_id u) = uid \<and> users_role u = ''admin'') (users d)"

definition Admins_can_delete_users :: "db \<Rightarrow> uuid option \<Rightarrow> users_row \<Rightarrow> bool" where
  "Admins_can_delete_users d uid row =
     (list_ex (\<lambda>u. Some (users_id u) = uid \<and> users_role u = ''admin'') (users d)
      \<and> (case uid of None \<Rightarrow> False | Some c \<Rightarrow> users_id row \<noteq> c))"

definition Users_can_view_permits_in_their_regions ::
  "db \<Rightarrow> uuid option \<Rightarrow> permits_row \<Rightarrow> bool" where
  "Users_can_view_permits_in_their_regions d uid row =
     list_ex (\<lambda>u. Some (users_id u) = uid
        \<and> (array_contains (users_region u) [permits_region row]
           \<or> users_role u \<in> {''admin'', ''manager''})) (users d)"

definition Managers_and_admins_can_create_permits ::
  "db \<Rightarrow> uuid option \<Rightarrow> permits_row \<Rightarrow> bool" where
  "Managers_and_admins_can_create_permits d uid row =
     list_ex (\<lambda>u. Some (users_id u) = uid
        \<and> users_role u \<in> {''admin'', ''manager''}
        \<and> (array_contains (users_region u) [permits_region row]
           \<or> users_role u = ''admin'')) (users d)"

definition Managers_and_admins_can_update_permits ::
  "db \<Rightarrow> uuid option \<Rightarrow> permits_row \<Rightarrow> bool" where
  "Managers_and_admins_can_update_permits d uid row =
     (list_ex (\<lambda>u. Some (users_id u) = uid
        \<and> users_role u \<in> {''admin'', ''manager''}
        \<and> (array_contains (users_region u) [permits_region row]
           \<or> users_role u = ''admin'')) (users d)
      \<and> permits_closed_at row = None)"

definition Admins_can_delete_permits :: "db \<Rightarrow> uuid option \<Rightarrow> permits_row \<Rightarrow> bool" where
  "Admins_can_delete_permits d uid row =
     list_ex (\<lambda>u. Some (users_id u) = uid \<and> users_role u = ''admin'') (users d)"

definition Users_can_view_activity_logs_based_on_role ::
  "db \<Rightarrow> uuid option \<Rightarrow> activity_logs_row \<Rightarrow> bool" where
  "Users_can_view_activity_logs_based_on_role d uid row =
     list_ex (\<lambda>u. Some (users_id u) = uid
        \<and> users_role u \<in> {''admin'', ''manager'', ''security_officer''}) (users d)"

definition All_authenticated_users_can_create_activity_logs ::
  "db \<Rightarrow> uuid option \<Rightarrow> activity_logs_row \<Rightarrow> bool" where
  "All_authenticated_users_can_create_activity_logs d uid row =
     (Some (activity_logs_user_id row) = uid)"

definition All_authenticated_users_can_view_role_permissions ::
  "db \<Rightarrow> uuid option \<Rightarrow> role_permissions_row \<Rightarrow> bool" where
  "All_authenticated_users_can_view_role_permissions d uid row =
     list_ex (\<lambda>u. Some (users_id u) = uid) (users d)"

definition Admins_can_manage_role_permissions ::
  "db \<Rightarrow> uuid option \<Rightarrow> role_permissions_row \<Rightarrow> bool" where
  "Admins_can_manage_role_permissions d uid row =
     list_ex (\<lambda>u. Some (users_id u) = uid \<and> users_role u = ''admin'') (users d)"

definition All_authenticated_users_can_read_regions ::
  "db \<Rightarrow> uuid option \<Rightarrow> regions_row \<Rightarrow> bool" where
  "All_authenticated_users_can_read_regions d uid row =
     list_ex (\<lambda>u. Some (users_id u) = uid) (users d)"

text \<open>
  Row-level security is enabled on all five tables. The expressions of the policies
  declared for a command (or \<open>FOR ALL\<close>) on a table are combined by \<open>OR\<close>; a table without
  a policy for a command admits no row for it. For \<open>UPDATE\<close> the row is the stored one; no
  policy gives a separate \<open>WITH CHECK\<close>, so the same expression is also required of the
  row as updated.
\<close>

datatype command = SELECT | INSERT | UPDATE | DELETE

fun users_rls :: "db \<Rightarrow> uuid option \<Rightarrow> command \<Rightarrow> users_row \<Rightarrow> bool" where
  "users_rls d uid SELECT row =
     (Users_can_read_own_data d uid row \<or> Admins_can_read_all_users d uid row)"
| "users_rls d uid INSERT row = Admins_can_create_users d uid row"
| "users_rls d uid UPDATE row = Admins_can_update_users d uid row"
| "users_rls d uid DELETE row = Admins_can_delete_users d uid row"

fun permits_rls :: "db \<Rightarrow> uuid option \<Rightarrow> command \<Rightarrow> permits_row \<Rightarrow> bool" where
  "permits_rls d uid SELECT row = Users_can_view_permits_in_their_regions d uid row"
| "permits_rls d uid INSERT row = Managers_and_admins_can_create_permits d uid row"
| "permits_rls d uid UPDATE row = Managers_and_admins_can_update_permits d uid row"
| "permits_rls d uid DELETE row = Admins_can_delete_permits d uid row"

fun activity_logs_rls :: "db \<Rightarrow> uuid option \<Rightarrow> command \<Rightarrow> activity_logs_row \<Rightarrow> bool" where
  "activity_logs_rls d uid SELECT row = Users_can_view_activity_logs_based_on_role d uid row"
| "activity_logs_rls d uid INSERT row =
     All_authenticated_users_can_create_activity_logs d uid row"
| "activity_logs_rls d uid UPDATE row = False"
| "activity_logs_rls d uid DELETE row = False"

fun role_permissions_rls ::
  "db \<Rightarrow> uuid option \<Rightarrow> command \<Rightarrow> role_permissions_row \<Rightarrow> bool" where
  "role_permissions_rls d uid SELECT row =
     (All_authenticated_users_can_view_role_permissions d uid row
      \<or> Admins_can_manage_role_permissions d uid row)"
| "role_permissions_rls d uid INSERT row = Admins_can_manage_role_permissions d uid row"
| "role_permissions_rls d uid UPDATE row = Admins_can_manage_role_permissions d uid row"
| "role_permissions_rls d uid DELETE row = Admins_can_manage_role_permissions d uid row"

fun regions_rls :: "db \<Rightarrow> uuid option \<Rightarrow> command \<Rightarrow> regions_row \<Rightarrow> bool" where
  "regions_rls d uid SELECT row = All_authenticated_users_can_read_regions d uid row"
| "regions_rls d uid INSERT row = False"
| "regions_rls d uid UPDATE row = False"
| "regions_rls d uid DELETE row = False"

section \<open>Seed data\<close>

text \<open>
  The rows of \<open>INSERT INTO role_permissions (role, permissions) VALUES ...\<close>, in the order
  of the statement, each capability vector with its keys in the order written.
\<close>

definition role_permissions_seed :: "(string \<times> capabilities) list" where
  "role_permissions_seed =
   [(''admin'',
     [(''canCreatePermits'', True), (''canEditPermits'', True), (''canDeletePermits'', True),
      (''canClosePermits'', True), (''canReopenPermits'', True), (''canViewPermits'', True),
      (''canExportPermits'', True), (''canManageUsers'', True), (''canViewStatistics'', True),
      (''canViewActivityLog'', True), (''canManagePermissions'', True),
      (''canReopenAnyPermit'', True)]),
    (''manager'',
     [(''canCreatePermits'', True), (''canEditPermits'', True), (''canDeletePermits'', False),
      (''canClosePermits'', True), (''canReopenPermits'', True), (''canViewPermits'', True),
      (''canExportPermits'', True), (''canManageUsers'', False), (''canViewStatistics'', True),
      (''canViewActivityLog'', True), (''canManagePermissions'', False),
      (''canReopenAnyPermit'', True)]),
    (''security_officer'',
     [(''canCreatePermits'', False), (''canEditPermits'', False), (''canDeletePermits'', False),
      (''canClosePermits'', True), (''canReopenPermits'', True), (''canViewPermits'', True),
      (''canExportPermits'', False), (''canManageUsers'', False), (''canViewStatistics'', False),
      (''canViewActivityLog'', True), (''canManagePermissions'', False),
      (''canReopenAnyPermit'', False)]),
    (''observer'',
     [(''canCreatePermits'', False), (''canEditPermits'', False), (''canDeletePermits'', False),
      (''canClosePermits'', False), (''canReopenPermits'', False), (''canViewPermits'', True),
      (''canExportPermits'', False), (''canManageUsers'', False), (''canViewStatistics'', False),
      (''canViewActivityLog'', False), (''canManagePermissions'', False),
      (''canReopenAnyPermit'', False)])]"

text \<open>The codes of \<open>INSERT INTO regions (code, name_en, name_ar) VALUES ...\<close>.\<close>

definition regions_seed :: "string list" where
  "regions_seed =
   [''headquarters'', ''riyadh'', ''qassim'', ''hail'', ''dammam'', ''ahsa'', ''jubail'',
    ''jouf'', ''northern_borders'', ''jeddah'', ''makkah'', ''medina'', ''tabuk'', ''yanbu'',
    ''asir'', ''taif'', ''baha'', ''jizan'', ''najran'']"

text \<open>
  The capability vectors as the specification words them: the twelve capability keys, and
  for each role which of them are true.
\<close>

definition capability_keys :: "string list" where
  "capability_keys =
   [''canCreatePermits'', ''canEditPermits'', ''canDeletePermits'', ''canClosePermits'',
    ''canReopenPermits'', ''canViewPermits'', ''canExportPermits'', ''canManageUsers'',
    ''canViewStatistics'', ''canViewActivityLog'', ''canManagePermissions'',
    ''canReopenAnyPermit'']"

definition spec_capability :: "string \<Rightarrow> string \<Rightarrow> bool" where
  "spec_capability r k =
     (if r = ''admin'' then True
      else if r = ''manager'' then
        k \<notin> {''canDeletePermits'', ''canManageUsers'', ''canManagePermissions''}
      else if r = ''security_officer'' then
        k \<in> {''canClosePermits'', ''canReopenPermits'', ''canViewPermits'',
              ''canViewActivityLog''}
      else k = ''canViewPermits'')"

definition spec_role_permissions :: "(string \<times> capabilities) list" where
  "spec_role_permissions =
     map (\<lambda>r. (r, map (\<lambda>k. (k, spec_capability r k)) capability_keys))
       [''admin'', ''manager'', ''security_officer'', ''observer'']"

section \<open>Constraints\<close>

text \<open>\<open>validate_region_code\<close>: \<open>EXISTS (SELECT 1 FROM regions WHERE code = region_code)\<close>.\<close>

definition validate_region_code :: "db \<Rightarrow> string \<Rightarrow> bool" where
  "validate_region_code d region_code =
     list_ex (\<lambda>r. regions_code r = region_code) (regions d)"

text \<open>
  \<open>validate_user_regions\<close>: the \<open>FOREACH\<close> loop returns false at the first code that
  \<open>validate_region_code\<close> rejects, and true when the array is exhausted.
\<close>

fun validate_user_regions :: "db \<Rightarrow> string list \<Rightarrow> bool" where
  "validate_user_regions d [] = True"
| "validate_user_regions d (region_code # rest) =
     (if \<not> validate_region_code d region_code then False
      else validate_user_regions d rest)"

definition permits_region_check :: "db \<Rightarrow> permits_row \<Rightarrow> bool" where
  "permits_region_check d row = validate_region_code d (permits_region row)"

definition users_regions_check :: "db \<Rightarrow> users_row \<Rightarrow> bool" where
  "users_regions_check d row = validate_user_regions d (users_region row)"

definition permits_request_type_check :: "permits_row \<Rightarrow> bool" where
  "permits_request_type_check row =
     (permits_request_type row \<in>
        {''material_entrance'', ''material_exit'', ''heavy_vehicle_entrance_exit'',
         ''heavy_vehicle_entrance'', ''heavy_vehicle_exit''})"

definition users_role_check :: "users_row \<Rightarrow> bool" where
  "users_role_check row =
     (users_role row \<in> {''admin'', ''manager'', ''security_officer'', ''observer''})"

section \<open>Statements\<close>

text \<open>
  A statement either returns its result or is rejected with an error; a rejected write
  commits nothing. The errors are named as the specification names them: a row-level
  security violation is an \<open>AuthorizationError\<close>, a violated \<open>CHECK\<close> or uniqueness
  constraint or an unknown role a \<open>ValidationError\<close>, a broken reference to a user a
  \<open>ReferentialError\<close>. \<open>PolicyRecursion\<close> is PostgreSQL's error 42P17, infinite recursion
  detected in policy, for which the specification has no name.
\<close>

datatype error =
  ValidationError | AuthorizationError | ReferentialError | ConstraintError | PolicyRecursion

definition commit :: "db \<Rightarrow> error + db \<Rightarrow> db" where
  "commit d r = (case r of Inl e \<Rightarrow> d | Inr d' \<Rightarrow> d')"

subsection \<open>Rewriting a statement with the policies\<close>

text \<open>
  The policies of the migration in the order they are created: the table, the command
  (\<open>None\<close> is \<open>FOR ALL\<close>), and the tables that the subqueries of the expression select
  from.
\<close>

datatype relation =
  Rel_users | Rel_permits | Rel_activity_logs | Rel_role_permissions | Rel_regions

record policy =
  policy_name :: string
  policy_table :: relation
  policy_command :: "command option"
  policy_subqueries :: "relation list"

definition policies :: "policy list" where
  "policies =
   [\<lparr>policy_name = ''Users can read own data'', policy_table = Rel_users,
      policy_command = Some SELECT, policy_subqueries = []\<rparr>,
    \<lparr>policy_name = ''Admins can read all users'', policy_table = Rel_users,
      policy_command = Some SELECT, policy_subqueries = [Rel_users]\<rparr>,
    \<lparr>policy_name = ''Admins can create users'', policy_table = Rel_users,
      policy_command = Some INSERT, policy_subqueries = [Rel_users]\<rparr>,
    \<lparr>policy_name = ''Admins can update users'', policy_table = Rel_users,
      policy_command = Some UPDATE, policy_subqueries = [Rel_users]\<rparr>,
    \<lparr>policy_name = ''Admins can delete users'', policy_table = Rel_users,
      policy_command = Some DELETE, policy_subqueries = [Rel_users]\<rparr>,
    \<lparr>policy_name = ''Users can view permits in their regions'', policy_table = Rel_permits,
      policy_command = Some SELECT, policy_subqueries = [Rel_users]\<rparr>,
    \<lparr>policy_name = ''Managers and admins can create permits'', policy_table = Rel_permits,
      policy_command = Some INSERT, policy_subqueries = [Rel_users]\<rparr>,
    \<lparr>policy_name = ''Managers and admins can update permits'', policy_table = Rel_permits,
      policy_command = Some UPDATE, policy_subqueries = [Rel_users]\<rparr>,
    \<lparr>policy_name = ''Admins can delete permits'', policy_table = Rel_permits,
      policy_command = Some DELETE, policy_subqueries = [Rel_users]\<rparr>,
    \<lparr>policy_name = ''Users can view activity logs based on role'',
      policy_table = Rel_activity_logs,
      policy_command = Some SELECT, policy_subqueries = [Rel_users]\<rparr>,
    \<lparr>policy_name = ''All authenticated users can create activity logs'',
      policy_table = Rel_activity_logs,
      policy_command = Some INSERT, policy_subqueries = []\<rparr>,
    \<lparr>policy_name = ''All authenticated users can view role permissions'',
      policy_table = Rel_role_permissions,
      policy_command = Some SELECT, policy_subqueries = [Rel_users]\<rparr>,
    \<lparr>policy_name = ''Admins can manage role permissions'',
      policy_table = Rel_role_permissions,
      policy_command = None, policy_subqueries = [Rel_users]\<rparr>,
    \<lparr>policy_name = ''All authenticated users can read regions'', policy_table = Rel_regions,
      policy_command = Some SELECT, policy_subqueries = [Rel_users]\<rparr>]"

text \<open>The tables read by the subqueries of the policies that apply to a command on a table.\<close>

definition applied_subqueries :: "relation \<Rightarrow> command \<Rightarrow> relation list" where
  "applied_subqueries r c =
     concat (map policy_subqueries
       (filter (\<lambda>p. policy_table p = r
                  \<and> (policy_command p = None \<or> policy_command p = Some c)) policies))"

text \<open>
  PostgreSQL rewrites a statement on a table by adding the expressions of the policies
  that apply to the command. A subquery of such an expression is a \<open>SELECT\<close> of the table
  it reads and is rewritten in turn, with the \<open>SELECT\<close> policies of that table. While the
  subqueries of a table's policies are expanded the table is active; expanding policies
  with subqueries for a table that is active already is the infinite recursion that
  rejects the statement, whatever the rows are.
\<close>

function policy_recursion :: "relation list \<Rightarrow> relation \<Rightarrow> command \<Rightarrow> bool" where
  "policy_recursion active r c =
     (if applied_subqueries r c = [] then False
      else if r \<in> set active then True
      else list_ex (\<lambda>t. policy_recursion (r # active) t SELECT) (applied_subqueries r c))"
  by pat_completeness auto
termination
proof (relation "measure (\<lambda>(active, r, c).
    length (filter (\<lambda>x. x \<notin> set active)
      [Rel_users, Rel_permits, Rel_activity_logs, Rel_role_permissions, Rel_regions]))",
    goal_cases)
  case 1
  show ?case by simp
next
  case (2 active r c t)
  then show ?case by (cases r) auto
qed

text \<open>
  Row-level security is enabled on the tables, not forced. To the owner of the tables,
  the role that runs the migration and its inserts, no policy applies. Every other
  session is a caller with its \<open>auth.uid()\<close>: its statement is rewritten with the
  policies, and a row is admitted when the expression holds.
\<close>

datatype session = Owner | Caller "uuid option"

definition rewrite :: "session \<Rightarrow> relation \<Rightarrow> command \<Rightarrow> error option" where
  "rewrite s r c =
     (case s of
        Owner \<Rightarrow> None
      | Caller uid \<Rightarrow> if policy_recursion [] r c then Some PolicyRecursion else None)"

definition admits :: "session \<Rightarrow> (uuid option \<Rightarrow> 'row \<Rightarrow> bool) \<Rightarrow> 'row \<Rightarrow> bool" where
  "admits s expr row = (case s of Owner \<Rightarrow> True | Caller uid \<Rightarrow> expr uid row)"

subsection \<open>Reads\<close>

text \<open>\<open>SELECT * FROM permits\<close>, and the same of \<open>role_permissions\<close> and \<open>regions\<close>.\<close>

definition permits_select :: "db \<Rightarrow> session \<Rightarrow> error + permits_row list" where
  "permits_select d s =
     (case rewrite s Rel_permits SELECT of
        Some e \<Rightarrow> Inl e
      | None \<Rightarrow> Inr (filter (admits s (\<lambda>uid. permits_rls d uid SELECT)) (permits d)))"

definition role_permissions_select :: "db \<Rightarrow> session \<Rightarrow> error + role_permissions_row list" where
  "role_permissions_select d s =
     (case rewrite s Rel_role_permissions SELECT of
        Some e \<Rightarrow> Inl e
      | None \<Rightarrow>
          Inr (filter (admits s (\<lambda>uid. role_permissions_rls d uid SELECT))
                 (role_permissions d)))"

definition regions_select :: "db \<Rightarrow> session \<Rightarrow> error + regions_row list" where
  "regions_select d s =
     (case rewrite s Rel_regions SELECT of
        Some e \<Rightarrow> Inl e
      | None \<Rightarrow> Inr (filter (admits s (\<lambda>uid. regions_rls d uid SELECT)) (regions d)))"

subsection \<open>Writes\<close>

text \<open>
  The constraints of \<open>users\<close> on a row to be stored beside the rows \<open>others\<close>: the two
  \<open>CHECK\<close> constraints, the primary key and the \<open>UNIQUE\<close> columns, and the reference
  from \<open>role\<close> to \<open>role_permissions\<close>.
\<close>

definition users_constraints :: "db \<Rightarrow> users_row list \<Rightarrow> users_row \<Rightarrow> error option" where
  "users_constraints d others row =
     (if \<not> users_regions_check d row then Some ValidationError
      else if \<not> users_role_check row then Some ValidationError
      else if list_ex (\<lambda>u. users_id u = users_id row
                 \<or> users_username u = users_username row
                 \<or> users_email u = users_email row) others then Some ValidationError
      else if \<not> list_ex (\<lambda>r. role_permissions_role r = users_role row) (role_permissions d)
        then Some ValidationError
      else None)"

text \<open>
  \<open>INSERT INTO users\<close>: the statement is rewritten, then the \<open>WITH CHECK\<close> of the insert
  policy is evaluated on the new row, then the constraints.
\<close>

definition users_insert :: "db \<Rightarrow> session \<Rightarrow> users_row \<Rightarrow> error + db" where
  "users_insert d s row =
     (case rewrite s Rel_users INSERT of
        Some e \<Rightarrow> Inl e
      | None \<Rightarrow>
          if \<not> admits s (\<lambda>uid. users_rls d uid INSERT) row then Inl AuthorizationError
          else case users_constraints d (users d) row of
                 Some e \<Rightarrow> Inl e
               | None \<Rightarrow> Inr (d\<lparr>users := users d @ [row]\<rparr>))"

text \<open>
  \<open>UPDATE users SET ... WHERE id = target\<close>, the new values given as a function of the
  stored row; the id is not among the columns set. A row that the \<open>USING\<close> expression
  does not admit is not updated, and the statement changes nothing.
\<close>

definition users_set_where_id ::
  "db \<Rightarrow> session \<Rightarrow> uuid \<Rightarrow> (users_row \<Rightarrow> users_row) \<Rightarrow> error + db" where
  "users_set_where_id d s target changes =
     (case rewrite s Rel_users UPDATE of
        Some e \<Rightarrow> Inl e
      | None \<Rightarrow>
          (case find (\<lambda>u. users_id u = target) (users d) of
             None \<Rightarrow> Inr d
           | Some old \<Rightarrow>
               (let row = (changes old)\<lparr>users_id := target\<rparr> in
                if \<not> admits s (\<lambda>uid. users_rls d uid UPDATE) old then Inr d
                else if \<not> admits s (\<lambda>uid. users_rls d uid UPDATE) row
                  then Inl AuthorizationError
                else case users_constraints d
                            (filter (\<lambda>u. users_id u \<noteq> target) (users d)) row of
                       Some e \<Rightarrow> Inl e
                     | None \<Rightarrow>
                         Inr (d\<lparr>users :=
                           map (\<lambda>u. if users_id u = target then row else u) (users d)\<rparr>))))"

text \<open>
  \<open>DELETE FROM users WHERE id = target\<close>. A row that the \<open>USING\<close> expression does not
  admit is not deleted; a row that a permit (\<open>created_by\<close>, \<open>closed_by\<close>) or an activity
  log (\<open>user_id\<close>) references cannot be deleted.
\<close>

definition users_delete :: "db \<Rightarrow> session \<Rightarrow> uuid \<Rightarrow> error + db" where
  "users_delete d s target =
     (case rewrite s Rel_users DELETE of
        Some e \<Rightarrow> Inl e
      | None \<Rightarrow>
          (case find (\<lambda>u. users_id u = target) (users d) of
             None \<Rightarrow> Inr d
           | Some row \<Rightarrow>
               if \<not> admits s (\<lambda>uid. users_rls d uid DELETE) row then Inr d
               else if list_ex (\<lambda>p. permits_created_by p = target
                                  \<or> permits_closed_by p = Some target) (permits d)
                       \<or> list_ex (\<lambda>l. activity_logs_user_id l = target) (activity_logs d)
                 then Inl ReferentialError
               else Inr (d\<lparr>users := filter (\<lambda>u. users_id u \<noteq> target) (users d)\<rparr>)))"

text \<open>
  \<open>INSERT INTO activity_logs\<close> by a caller: the \<open>WITH CHECK\<close> of the insert policy, which
  has no subquery, the primary key, and the reference from \<open>user_id\<close> to \<open>users\<close>.
\<close>

definition activity_logs_insert ::
  "db \<Rightarrow> uuid option \<Rightarrow> activity_logs_row \<Rightarrow> error + db" where
  "activity_logs_insert d uid row =
     (if \<not> activity_logs_rls d uid INSERT row then Inl AuthorizationError
      else if list_ex (\<lambda>l. activity_logs_id l = activity_logs_id row) (activity_logs d)
        then Inl ValidationError
      else if \<not> list_ex (\<lambda>u. users_id u = activity_logs_user_id row) (users d)
        then Inl ReferentialError
      else Inr (d\<lparr>activity_logs := activity_logs d @ [row]\<rparr>))"

section \<open>Reopening a closed permit\<close>




section \<open>Converting keys to snake case (usePermits, \<open>toSnakeCase\<close>)\<close>

text \<open>
  A JSON-like value: \<open>null\<close>, a primitive (a string, number or boolean, which
  \<open>toSnakeCase\<close> returns as it is), an array, or an object. An object is its prototype
  and its own enumerable properties in the order \<open>Object.keys\<close> lists them. The prototype
  \<open>None\<close> is \<open>Object.prototype\<close>, which every object of parsed JSON and every \<open>{}\<close> has;
  \<open>Some JNull\<close> is the null prototype, \<open>Some v\<close> an object or array \<open>v\<close>.
\<close>

datatype 'p json = JNull | JPrim 'p | JArray "'p json list"
  | JObject "'p json option" "(string \<times> 'p json) list"

text \<open>The character class \<open>[A-Z]\<close>.\<close>

definition is_AZ :: "char \<Rightarrow> bool" where
  "is_AZ c = (65 \<le> (of_char c :: nat) \<and> (of_char c :: nat) \<le> 90)"

text \<open>\<open>letter.toLowerCase()\<close>, which the replacement calls on matches of \<open>[A-Z]\<close> only.\<close>

definition toLowerCase :: "char \<Rightarrow> char" where
  "toLowerCase c = (if is_AZ c then char_of ((of_char c :: nat) + 32) else c)"

text \<open>\<open>key.replace(/[A-Z]/g, letter => `_${letter.toLowerCase()}`)\<close>.\<close>

definition snakeKey :: "string \<Rightarrow> string" where
  "snakeKey key =
     concat (map (\<lambda>letter. if is_AZ letter then [CHR ''_'', toLowerCase letter]
                            else [letter]) key)"

text \<open>
  Whether an assignment to \<open>__proto__\<close> on an object with this prototype, and without
  an own property of that name, reaches the accessor that \<open>Object.prototype\<close> defines: the
  lookup walks the prototype chain and stops at the first object with an own property
  \<open>__proto__\<close>, or at its end. Arrays have no such own property and end in
  \<open>Object.prototype\<close>; a primitive is never a prototype.
\<close>

fun inherits_proto_setter :: "'p json option \<Rightarrow> bool" where
  "inherits_proto_setter None = True"
| "inherits_proto_setter (Some (JObject proto props)) =
     (if map_of props ''__proto__'' \<noteq> None then False else inherits_proto_setter proto)"
| "inherits_proto_setter (Some (JArray xs)) = True"
| "inherits_proto_setter (Some JNull) = False"
| "inherits_proto_setter (Some (JPrim p)) = False"

text \<open>
  The assignment \<open>acc[snakeKey] = v\<close> on the accumulator, a prototype and own
  properties. A property that exists is overwritten where it stands, a new one is added
  last. When the key is \<open>__proto__\<close> and the assignment reaches the accessor, no property
  is added: \<open>null\<close>, an object or an array becomes the prototype of the accumulator, and
  a primitive is ignored.
\<close>

fun setProp ::
  "'p json option \<times> (string \<times> 'p json) list \<Rightarrow> string \<Rightarrow> 'p json
     \<Rightarrow> 'p json option \<times> (string \<times> 'p json) list" where
  "setProp (proto, props) k v =
     (if k = ''__proto__'' \<and> map_of props k = None \<and> inherits_proto_setter proto
      then (case v of JPrim p \<Rightarrow> (proto, props) | _ \<Rightarrow> (Some v, props))
      else (proto, AList.update k v props))"

text \<open>
  \<open>toSnakeCase\<close>: an array is mapped, an object is rebuilt by \<open>reduce\<close> over its keys
  from the empty object \<open>{}\<close>, anything else is returned.
\<close>

fun toSnakeCase :: "'p json \<Rightarrow> 'p json" where
  "toSnakeCase (JArray xs) = JArray (map toSnakeCase xs)"
| "toSnakeCase (JObject proto kvs) =
     (case fold (\<lambda>(key, v) acc. setProp acc (snakeKey key) (toSnakeCase v)) kvs (None, [])
      of (p, props) \<Rightarrow> JObject p props)"
| "toSnakeCase obj = obj"

text \<open>
  Values with plain objects whose keys are in snake case: every object has the prototype
  \<open>Object.prototype\<close>, its keys are distinct, none contains a letter of \<open>[A-Z]\<close>, and none
  is \<open>__proto__\<close>.
\<close>

definition props_ok :: "('p json \<Rightarrow> bool) \<Rightarrow> (string \<times> 'p json) list \<Rightarrow> bool" where
  "props_ok ok kvs =
     (distinct (map fst kvs)
      \<and> list_all (\<lambda>k. \<not> list_ex is_AZ k \<and> k \<noteq> ''__proto__'') (map fst kvs)
      \<and> list_all ok (map snd kvs))"

fun snake_cased :: "'p json \<Rightarrow> bool" where
  "snake_cased (JArray xs) = list_all snake_cased xs"
| "snake_cased (JObject proto kvs) =
     (proto = None
      \<and> distinct (map fst kvs)
      \<and> list_all (\<lambda>k. \<not> list_ex is_AZ k \<and> k \<noteq> ''__proto__'') (map fst kvs)
      \<and> list_all snake_cased (map snd kvs))"
| "snake_cased obj = True"

text \<open>
  Values in which no key of an object, at any depth, is \<open>__proto__\<close> or \<open>_Proto__\<close>, the
  two keys that \<open>snakeKey\<close> turns into \<open>__proto__\<close>.
\<close>

fun no_proto_key :: "'p json \<Rightarrow> bool" where
  "no_proto_key (JArray xs) = list_all no_proto_key xs"
| "no_proto_key (JObject proto kvs) =
     (list_all (\<lambda>k. k \<noteq> ''__proto__'' \<and> k \<noteq> ''_Proto__'') (map fst kvs)
      \<and> list_all no_proto_key (map snd kvs))"
| "no_proto_key obj = True"

section \<open>An example database\<close>

text \<open>
  The state after the migration (the seeded roles and regions, and the administrator
  with all regions), with three more users, an open permit and a permit closed by the
  fourth user.
\<close>

definition example_user :: "uuid \<Rightarrow> string \<Rightarrow> string list \<Rightarrow> string \<Rightarrow> users_row" where
  "example_user i name rs r =
     \<lparr>users_id = i, users_username = name, users_password = ''$2b$12$'',
      users_email = name @ ''@example.com'', users_first_name = name,
      users_last_name = name, users_region = rs, users_role = r,
      users_permissions = None, users_created_at = Some 0, users_last_login = None\<rparr>"

definition example_permit ::
  "uuid \<Rightarrow> string \<Rightarrow> uuid option \<Rightarrow> timestamptz option \<Rightarrow> permits_row" where
  "example_permit i r closer closed =
     \<lparr>permits_id = i, permits_permit_number = ''MHV2025'' @ replicate i CHR ''0'',
      permits_date = 0, permits_region = r, permits_location = ''gate'',
      permits_carrier_name = ''carrier'', permits_carrier_id = ''1'',
      permits_request_type = ''material_entrance'', permits_vehicle_plate = ''ABC'',
      permits_materials = [], permits_closed_by = closer, permits_closed_at = closed,
      permits_closed_by_name = map_option (\<lambda>c. ''name'') closer,
      permits_can_reopen = Some True, permits_created_by = 1,
      permits_created_at = Some 0\<rparr>"

definition example_db :: db where
  "example_db =
     \<lparr>users =
        [example_user 1 ''admin'' regions_seed ''admin'',
         example_user 2 ''manager'' [''riyadh''] ''manager'',
         example_user 3 ''officer'' [''riyadh''] ''security_officer'',
         example_user 4 ''observer'' [''jeddah''] ''observer''],
      permits =
        [example_permit 1 ''riyadh'' None None,
         example_permit 2 ''jeddah'' (Some 4) (Some 7)],
      activity_logs = [],
      role_permissions =
        map (\<lambda>(i, r, caps).
               \<lparr>role_permissions_id = i, role_permissions_role = r,
                role_permissions_permissions = caps,
                role_permissions_updated_at = Some 0\<rparr>)
          (zip [0 ..< length role_permissions_seed] role_permissions_seed),
      regions =
        map (\<lambda>(i, c). \<lparr>regions_id = i, regions_code = c, regions_created_at = Some 0\<rparr>)
          (zip [0 ..< length regions_seed] regions_seed)\<rparr>"

definition example_log :: "uuid \<Rightarrow> activity_logs_row" where
  "example_log u =
     \<lparr>activity_logs_id = 1, activity_logs_user_id = u, activity_logs_name = ''name'',
      activity_logs_username = ''name'', activity_logs_action = ''login'',
      activity_logs_details = ''logged in'', activity_logs_timestamp = Some 0,
      activity_logs_ip = None, activity_logs_user_agent = None\<rparr>"

section \<open>Helper lemmas\<close>

lemma caller_row_unique:
  assumes "users_pkey d" and "u \<in> set (users d)"
  shows "list_ex (\<lambda>v. users_id v = users_id u \<and> P v) (users d) = P u"
proof -
  have "v = u" if "v \<in> set (users d)" and "users_id v = users_id u" for v
    using that assms by (auto simp: users_pkey_def distinct_map dest: inj_onD)
  then show ?thesis
    using assms(2) by (auto simp: list_ex_iff)
qed

lemma example_db_users_pkey: "users_pkey example_db"
  by (simp add: users_pkey_def example_db_def example_user_def)


lemma validate_user_regions_list_all:
  "validate_user_regions d rs = list_all (validate_region_code d) rs"
  by (induction rs) simp_all

lemma validate_region_code_users:
  "validate_region_code (d\<lparr>users := us\<rparr>) = validate_region_code d"
  by (simp add: validate_region_code_def fun_eq_iff)


text \<open>
  The rewriting of a caller's statement recurses whenever a policy that applies to it has
  a subquery: every subquery of the migration reads \<open>users\<close>, and the \<open>SELECT\<close> policy
  \<open>Admins can read all users\<close> of \<open>users\<close> reads \<open>users\<close> again. Only the insert into
  \<open>activity_logs\<close> is rewritten without a subquery.
\<close>

lemma subqueries_recursion: "applied_subqueries r c \<noteq> [] \<Longrightarrow> policy_recursion [] r c"
  by (cases r; cases c) (simp_all add: applied_subqueries_def policies_def)

lemma rewrite_caller_reads:
  "rewrite (Caller uid) Rel_permits SELECT = Some PolicyRecursion"
  "rewrite (Caller uid) Rel_role_permissions SELECT = Some PolicyRecursion"
  "rewrite (Caller uid) Rel_regions SELECT = Some PolicyRecursion"
  by (simp_all add: rewrite_def subqueries_recursion applied_subqueries_def policies_def)

lemma rewrite_caller_users: "rewrite (Caller uid) Rel_users c = Some PolicyRecursion"
  by (cases c)
    (simp_all add: rewrite_def subqueries_recursion applied_subqueries_def policies_def)

lemma rewrite_caller_activity_logs_insert:
  "rewrite (Caller uid) Rel_activity_logs INSERT = None"
  by (simp add: rewrite_def applied_subqueries_def policies_def)

text \<open>
  The expression of the \<open>SELECT\<close> policy of \<open>permits\<close> by itself: for the caller's row \<open>u\<close>
  of \<open>users\<close> it holds of a permit exactly when the permit's region is one of the regions
  of \<open>u\<close> or the role of \<open>u\<close> is admin or manager.
\<close>

lemma permits_select_expression:
  assumes "users_pkey d" and "u \<in> set (users d)"
  shows "permits_rls d (Some (users_id u)) SELECT p \<longleftrightarrow>
           permits_region p \<in> set (users_region u) \<or> users_role u \<in> {''admin'', ''manager''}"
  by (simp add: Users_can_view_permits_in_their_regions_def array_contains_def
      caller_row_unique [OF assms])

lemma snakeKey_Nil: "snakeKey [] = []"
  by (simp add: snakeKey_def)

lemma snakeKey_Cons:
  "snakeKey (c # cs) =
     (if is_AZ c then CHR ''_'' # toLowerCase c # snakeKey cs else c # snakeKey cs)"
  by (simp add: snakeKey_def)

lemma snakeKey_eq_Nil: "snakeKey k = [] \<longleftrightarrow> k = []"
  by (cases k) (simp_all add: snakeKey_Nil snakeKey_Cons)

lemma toLowerCase_range:
  assumes "is_AZ c"
  shows "(of_char (toLowerCase c) :: nat) = of_char c + 32"
  using assms by (simp add: toLowerCase_def is_AZ_def)

lemma toLowerCase_eqD:
  assumes "is_AZ c" and "toLowerCase c = x"
  shows "(of_char c :: nat) + 32 = of_char x"
  using assms toLowerCase_range [of c] by simp

lemma toLowerCase_not_underscore: "is_AZ c \<Longrightarrow> toLowerCase c \<noteq> CHR ''_''"
  using toLowerCase_eqD [of c "CHR ''_''"] by (auto simp: is_AZ_def)

lemma toLowerCase_p:
  assumes "is_AZ c" and "toLowerCase c = CHR ''p''"
  shows "c = CHR ''P''"
proof -
  have "(of_char c :: nat) = 80"
    using toLowerCase_eqD [OF assms] by simp
  then have "(of_char c :: nat) = of_char CHR ''P''"
    by simp
  then show ?thesis by (simp only: of_char_eq_iff)
qed

lemma snakeKey_ConsE:
  assumes "snakeKey k = x # xs"
  obtains (plain) cs where "k = x # cs" and "\<not> is_AZ x" and "snakeKey cs = xs"
  | (upper) c cs ys where "k = c # cs" and "is_AZ c" and "x = CHR ''_''"
      and "xs = toLowerCase c # ys" and "snakeKey cs = ys"
proof (cases k)
  case Nil
  then show ?thesis using assms by (simp add: snakeKey_Nil)
next
  case (Cons c cs)
  show ?thesis
  proof (cases "is_AZ c")
    case True
    then have "x = CHR ''_''" and "xs = toLowerCase c # snakeKey cs"
      using assms Cons by (simp_all add: snakeKey_Cons)
    then show ?thesis using True Cons by (intro upper [of c cs "snakeKey cs"]) simp_all
  next
    case False
    then have "x = c" and "snakeKey cs = xs"
      using assms Cons by (simp_all add: snakeKey_Cons)
    then show ?thesis using False Cons by (intro plain [of cs]) simp_all
  qed
qed

lemma snakeKey_prefix:
  assumes "snakeKey k = t @ u" and "CHR ''_'' \<notin> set t"
  shows "\<exists>k'. k = t @ k' \<and> snakeKey k' = u"
  using assms
proof (induction t arbitrary: k)
  case Nil
  then show ?case by simp
next
  case (Cons x t)
  from Cons.prems(1) have "snakeKey k = x # (t @ u)" by simp
  then show ?case
  proof (cases rule: snakeKey_ConsE)
    case (plain cs)
    then obtain k' where "cs = t @ k'" and "snakeKey k' = u"
      using Cons.IH [of cs] Cons.prems(2) by auto
    then show ?thesis using plain by simp
  next
    case (upper c cs ys)
    then show ?thesis using Cons.prems(2) by simp
  qed
qed

lemma snakeKey_underscores:
  assumes "snakeKey k = ''__''"
  shows "k = ''__''"
  using assms
proof (cases rule: snakeKey_ConsE)
  case (plain cs)
  from plain(3) show ?thesis
  proof (cases rule: snakeKey_ConsE)
    case (plain ds)
    then show ?thesis using \<open>k = CHR ''_'' # cs\<close> by (simp add: snakeKey_eq_Nil)
  next
    case (upper c ds ys)
    then show ?thesis by simp
  qed
next
  case (upper c cs ys)
  then show ?thesis using toLowerCase_not_underscore [of c] by simp
qed

text \<open>The keys that \<open>snakeKey\<close> turns into \<open>__proto__\<close>.\<close>

lemma snakeKey_proto:
  "snakeKey k = ''__proto__'' \<longleftrightarrow> k = ''__proto__'' \<or> k = ''_Proto__''"
proof
  assume "snakeKey k = ''__proto__''"
  then show "k = ''__proto__'' \<or> k = ''_Proto__''"
  proof (cases rule: snakeKey_ConsE)
    case (plain k1)
    from plain(3) show ?thesis
    proof (cases rule: snakeKey_ConsE)
      case (plain k2)
      then have "snakeKey k2 = ''proto'' @ ''__''" by simp
      then obtain k3 where k2: "k2 = ''proto'' @ k3" and "snakeKey k3 = ''__''"
        using snakeKey_prefix [of k2 "''proto''" "''__''"] by auto
      then have "k3 = ''__''"
        by (simp add: snakeKey_underscores)
      then show ?thesis
        using plain(1) k2 \<open>k = CHR ''_'' # k1\<close> by simp
    next
      case (upper c k2 ys)
      then have "toLowerCase c = CHR ''p''" and "snakeKey k2 = ''roto'' @ ''__''"
        by simp_all
      then have c: "c = CHR ''P''"
        using upper(2) by (simp add: toLowerCase_p)
      obtain k3 where k2: "k2 = ''roto'' @ k3" and "snakeKey k3 = ''__''"
        using snakeKey_prefix [of k2 "''roto''" "''__''"] \<open>snakeKey k2 = ''roto'' @ ''__''\<close>
        by auto
      then have "k3 = ''__''"
        by (simp add: snakeKey_underscores)
      then show ?thesis
        using upper(1) c k2 \<open>k = CHR ''_'' # k1\<close> by simp
    qed
  next
    case (upper c cs ys)
    then show ?thesis using toLowerCase_not_underscore [of c] by simp
  qed
next
  have "snakeKey ''__proto__'' = ''__proto__''" and "snakeKey ''_Proto__'' = ''__proto__''"
    by code_simp+
  moreover assume "k = ''__proto__'' \<or> k = ''_Proto__''"
  ultimately show "snakeKey k = ''__proto__''"
    by auto
qed

lemma underscore_not_AZ: "\<not> is_AZ CHR ''_''"
  by (simp add: is_AZ_def)

lemma toLowerCase_not_AZ: "is_AZ c \<Longrightarrow> \<not> is_AZ (toLowerCase c)"
  by (simp add: is_AZ_def toLowerCase_def)

lemma snakeKey_no_AZ: "\<not> list_ex is_AZ (snakeKey key)"
  by (induction key) (auto simp: snakeKey_def toLowerCase_not_AZ underscore_not_AZ)

lemma snakeKey_fixed: "\<not> list_ex is_AZ key \<Longrightarrow> snakeKey key = key"
  by (induction key) (auto simp: snakeKey_def)

lemma setProp_plain:
  "k \<noteq> ''__proto__'' \<Longrightarrow> setProp (proto, props) k v = (proto, AList.update k v props)"
  by simp

lemma props_ok_update:
  assumes "props_ok ok acc" and "\<not> list_ex is_AZ k" and "k \<noteq> ''__proto__''" and "ok v"
  shows "props_ok ok (AList.update k v acc)"
proof -
  have "distinct (map fst (AList.update k v acc))"
    using assms(1) by (simp add: props_ok_def distinct_update)
  moreover have "set (AList.update k v acc) \<subseteq> insert (k, v) (set acc)"
    by (induction acc) auto
  ultimately show ?thesis
    using assms by (auto simp: props_ok_def list_all_iff)
qed

lemma props_ok_fold:
  assumes "props_ok ok acc"
    and "\<And>k v. (k, v) \<in> set kvs \<Longrightarrow> snakeKey k \<noteq> ''__proto__'' \<and> ok (f v)"
  shows "\<exists>props. fold (\<lambda>(key, v) acc. setProp acc (snakeKey key) (f v)) kvs (proto, acc)
            = (proto, props) \<and> props_ok ok props"
  using assms
proof (induction kvs arbitrary: acc)
  case Nil
  then show ?case by simp
next
  case (Cons kv kvs)
  obtain k v where kv: "kv = (k, v)" by (cases kv)
  have key: "snakeKey k \<noteq> ''__proto__''" and val: "ok (f v)"
    using Cons.prems(2) [of k v] kv by simp_all
  have step: "setProp (proto, acc) (snakeKey k) (f v)
      = (proto, AList.update (snakeKey k) (f v) acc)"
    using key by (rule setProp_plain)
  have "props_ok ok (AList.update (snakeKey k) (f v) acc)"
    using Cons.prems(1) snakeKey_no_AZ key val by (rule props_ok_update)
  then have "\<exists>props. fold (\<lambda>(key, v) acc. setProp acc (snakeKey key) (f v)) kvs
      (proto, AList.update (snakeKey k) (f v) acc) = (proto, props) \<and> props_ok ok props"
    using Cons.prems(2) by (intro Cons.IH) auto
  then show ?case
    using kv step by simp
qed

lemma snake_cased_toSnakeCase: "no_proto_key v \<Longrightarrow> snake_cased (toSnakeCase v)"
proof (induction v rule: toSnakeCase.induct)
  case (1 xs)
  then show ?case by (simp add: list_all_iff)
next
  case (2 proto kvs)
  have "\<exists>props. fold (\<lambda>(key, v) acc. setProp acc (snakeKey key) (toSnakeCase v)) kvs (None, [])
            = (None, props) \<and> props_ok snake_cased props"
  proof (rule props_ok_fold)
    show "props_ok snake_cased []" by (simp add: props_ok_def)
  next
    fix k v assume mem: "(k, v) \<in> set kvs"
    then have "k \<noteq> ''__proto__''" "k \<noteq> ''_Proto__''" "no_proto_key v"
      using "2.prems" by (auto simp: list_all_iff)
    then show "snakeKey k \<noteq> ''__proto__'' \<and> snake_cased (toSnakeCase v)"
      using mem "2.IH" by (simp add: snakeKey_proto)
  qed
  then show ?case by (auto simp: props_ok_def)
qed simp_all

lemma update_fresh: "k \<notin> fst ` set al \<Longrightarrow> AList.update k v al = al @ [(k, v)]"
  by (induction al) auto

lemma fold_setProp_fixed:
  assumes "distinct (map fst (acc @ kvs))"
    and "\<And>k v. (k, v) \<in> set kvs \<Longrightarrow> \<not> list_ex is_AZ k \<and> k \<noteq> ''__proto__'' \<and> f v = v"
  shows "fold (\<lambda>(key, v) acc. setProp acc (snakeKey key) (f v)) kvs (proto, acc)
           = (proto, acc @ kvs)"
  using assms
proof (induction kvs arbitrary: acc)
  case Nil
  then show ?case by simp
next
  case (Cons kv kvs)
  obtain k v where kv: "kv = (k, v)" by (cases kv)
  have ok: "\<not> list_ex is_AZ k" "k \<noteq> ''__proto__''" "f v = v"
    using Cons.prems(2) [of k v] kv by auto
  have fresh: "k \<notin> fst ` set acc"
    using Cons.prems(1) kv by auto
  have step: "setProp (proto, acc) (snakeKey k) (f v) = (proto, acc @ [(k, v)])"
    using ok fresh by (simp add: snakeKey_fixed update_fresh)
  have "distinct (map fst ((acc @ [(k, v)]) @ kvs))"
    using Cons.prems(1) kv by simp
  then have "fold (\<lambda>(key, v) acc. setProp acc (snakeKey key) (f v)) kvs (proto, acc @ [(k, v)])
      = (proto, (acc @ [(k, v)]) @ kvs)"
    using Cons.prems(2) by (intro Cons.IH) auto
  then show ?case using step kv by simp
qed

lemma toSnakeCase_snake_cased: "snake_cased v \<Longrightarrow> toSnakeCase v = v"
proof (induction v rule: toSnakeCase.induct)
  case (1 xs)
  then show ?case by (simp add: list_all_iff map_idI)
next
  case (2 proto kvs)
  have "fold (\<lambda>(key, v) acc. setProp acc (snakeKey key) (toSnakeCase v)) kvs (None, [])
      = (None, [] @ kvs)"
  proof (rule fold_setProp_fixed)
    show "distinct (map fst ([] @ kvs))" using 2 by simp
  next
    fix k v assume "(k, v) \<in> set kvs"
    then show "\<not> list_ex is_AZ k \<and> k \<noteq> ''__proto__'' \<and> toSnakeCase v = v"
      using 2 by (force simp: list_all_iff)
  qed
  then show ?case using "2.prems" by simp
qed simp_all

section \<open>Reading permits\<close>

text \<open>
  C1 does not hold of the code. The expression of the \<open>SELECT\<close> policy of \<open>permits\<close> is
  the claimed rule (\<open>permits_select_expression\<close>), but it reads \<open>users\<close>, whose own
  \<open>SELECT\<close> policy \<open>Admins can read all users\<close> reads \<open>users\<close> again: the rewriting of a
  caller's \<open>SELECT\<close> of \<open>permits\<close> recurses, the statement is rejected, and no permit is
  returned to any caller, whatever their role and regions.
\<close>

theorem permits_select_rejected:
  "permits_select d (Caller uid) = Inl PolicyRecursion"
  by (simp add: permits_select_def rewrite_caller_reads)

theorem permits_select_rejected_witness:
  "example_user 3 ''officer'' [''riyadh''] ''security_officer'' \<in> set (users example_db)
   \<and> example_permit 1 ''riyadh'' None None \<in> set (permits example_db)
   \<and> permits_region (example_permit 1 ''riyadh'' None None)
       \<in> set (users_region (example_user 3 ''officer'' [''riyadh''] ''security_officer''))
   \<and> permits_rls example_db (Some 3) SELECT (example_permit 1 ''riyadh'' None None)
   \<and> permits_select example_db (Caller (Some 3)) = Inl PolicyRecursion"
proof -
  let ?u = "example_user 3 ''officer'' [''riyadh''] ''security_officer''"
  let ?p = "example_permit 1 ''riyadh'' None None"
  have u: "?u \<in> set (users example_db)" and p: "?p \<in> set (permits example_db)"
    by (simp_all add: example_db_def)
  have id: "users_id ?u = 3" and region: "permits_region ?p \<in> set (users_region ?u)"
    by (simp_all add: example_user_def example_permit_def)
  have expr: "permits_rls example_db (Some 3) SELECT ?p"
    using permits_select_expression [OF example_db_users_pkey u, of ?p] region
    by (simp add: id)
  show ?thesis
    using u p region expr permits_select_rejected [of example_db "Some 3"] by blast
qed

section \<open>Closed permits\<close>

text \<open>
  C2. A permit whose \<open>closed_at\<close> is not null is not admitted by the update policy, for
  any caller and any role: a closed permit cannot be changed by a plain update.
\<close>

theorem closed_permit_update_denied:
  "permits_closed_at p \<noteq> None \<Longrightarrow> \<not> permits_rls d uid UPDATE p"
  by (simp add: Managers_and_admins_can_update_permits_def)

theorem closed_permit_update_denied_witness:
  "permits_closed_at (example_permit 2 ''jeddah'' (Some 4) (Some 7)) \<noteq> None
   \<and> \<not> permits_rls example_db (Some 1) UPDATE (example_permit 2 ''jeddah'' (Some 4) (Some 7))"
proof -
  have h: "permits_closed_at (example_permit 2 ''jeddah'' (Some 4) (Some 7)) \<noteq> None"
    by (simp add: example_permit_def)
  show ?thesis using h closed_permit_update_denied [OF h] by simp
qed

section \<open>Reopening\<close>



section \<open>Writes by an observer\<close>

text \<open>
  C4. For a user whose role is observer, every write command (insert, update, delete) is
  denied on every row of the permit store, of the user directory and of the role-permission
  table.
\<close>

theorem observer_writes_denied:
  assumes "users_pkey d" and "u \<in> set (users d)" and "users_role u = ''observer''"
    and "c \<in> {INSERT, UPDATE, DELETE}"
  shows "\<not> permits_rls d (Some (users_id u)) c p
       \<and> \<not> users_rls d (Some (users_id u)) c t
       \<and> \<not> role_permissions_rls d (Some (users_id u)) c r"
proof -
  note caller = caller_row_unique [OF assms(1,2)]
  have permits: "\<not> permits_rls d (Some (users_id u)) c p"
    using assms(3,4)
    by (auto simp: Managers_and_admins_can_create_permits_def
        Managers_and_admins_can_update_permits_def Admins_can_delete_permits_def caller)
  have users: "\<not> users_rls d (Some (users_id u)) c t"
    using assms(3,4)
    by (auto simp: Admins_can_create_users_def Admins_can_update_users_def
        Admins_can_delete_users_def caller)
  have roles: "\<not> role_permissions_rls d (Some (users_id u)) c r"
    using assms(3,4)
    by (auto simp: Admins_can_manage_role_permissions_def caller)
  show ?thesis using permits users roles by blast
qed

theorem observer_writes_denied_witness:
  "users_pkey example_db
   \<and> example_user 4 ''observer'' [''jeddah''] ''observer'' \<in> set (users example_db)
   \<and> users_role (example_user 4 ''observer'' [''jeddah''] ''observer'') = ''observer''
   \<and> INSERT \<in> {INSERT, UPDATE, DELETE}
   \<and> \<not> permits_rls example_db (Some 4) INSERT (example_permit 3 ''jeddah'' None None)
   \<and> \<not> users_rls example_db (Some 4) INSERT (example_user 5 ''guest'' [''jeddah''] ''observer'')
   \<and> \<not> role_permissions_rls example_db (Some 4) INSERT
        \<lparr>role_permissions_id = 9, role_permissions_role = ''guest'',
         role_permissions_permissions = [], role_permissions_updated_at = None\<rparr>"
proof -
  let ?u = "example_user 4 ''observer'' [''jeddah''] ''observer''"
  have mem: "?u \<in> set (users example_db)"
    by (simp add: example_db_def)
  have rol: "users_role ?u = ''observer''" and id: "users_id ?u = 4"
    by (simp_all add: example_user_def)
  have cmd: "INSERT \<in> {INSERT, UPDATE, DELETE}"
    by simp
  show ?thesis
    using observer_writes_denied [OF example_db_users_pkey mem rol cmd, unfolded id]
      example_db_users_pkey mem rol cmd
    by blast
qed

section \<open>The seeded roles\<close>

text \<open>
  C5. The role-permission table is seeded with exactly the four roles admin, manager,
  security_officer and observer, each once, and with the capability vectors the
  specification words: all twelve true for admin; all but \<open>canDeletePermits\<close>,
  \<open>canManageUsers\<close> and \<open>canManagePermissions\<close> for manager; only \<open>canClosePermits\<close>,
  \<open>canReopenPermits\<close>, \<open>canViewPermits\<close> and \<open>canViewActivityLog\<close> for security_officer;
  only \<open>canViewPermits\<close> for observer.
\<close>

theorem role_permissions_seed_exact:
  "role_permissions_seed = spec_role_permissions
   \<and> distinct (map fst role_permissions_seed)
   \<and> set (map fst role_permissions_seed) =
       {''admin'', ''manager'', ''security_officer'', ''observer''}
   \<and> length capability_keys = 12 \<and> distinct capability_keys"
  by (simp add: role_permissions_seed_def spec_role_permissions_def spec_capability_def
      capability_keys_def insert_commute)

section \<open>Deleting users\<close>

text \<open>
  C6 does not hold of the code. The expression of the \<open>DELETE\<close> policy of \<open>users\<close> admits
  an admin's deletion of another user and refuses every caller's own row, but it reads
  \<open>users\<close> under the \<open>SELECT\<close> policies of \<open>users\<close>: the rewriting of a caller's \<open>DELETE\<close>
  recurses, the statement is rejected and deletes nothing. A caller's own account is not
  deleted, as claimed; an admin's deletion of another user is rejected too, where the
  claim has it allowed.
\<close>

theorem users_delete_rejected:
  "users_delete d (Caller uid) target = Inl PolicyRecursion
   \<and> commit d (users_delete d (Caller uid) target) = d"
  by (simp add: users_delete_def rewrite_caller_users commit_def)

theorem users_delete_rejected_witness:
  "example_user 1 ''admin'' regions_seed ''admin'' \<in> set (users example_db)
   \<and> example_user 3 ''officer'' [''riyadh''] ''security_officer'' \<in> set (users example_db)
   \<and> users_rls example_db (Some 1) DELETE
       (example_user 3 ''officer'' [''riyadh''] ''security_officer'')
   \<and> users_delete example_db Owner 3 =
       Inr (example_db\<lparr>users :=
         [example_user 1 ''admin'' regions_seed ''admin'',
          example_user 2 ''manager'' [''riyadh''] ''manager'',
          example_user 4 ''observer'' [''jeddah''] ''observer'']\<rparr>)
   \<and> users_delete example_db (Caller (Some 1)) 3 = Inl PolicyRecursion
   \<and> commit example_db (users_delete example_db (Caller (Some 1)) 3) = example_db"
proof -
  let ?a = "example_user 1 ''admin'' regions_seed ''admin''"
  let ?s = "example_user 3 ''officer'' [''riyadh''] ''security_officer''"
  have a: "?a \<in> set (users example_db)" and s: "?s \<in> set (users example_db)"
    by (simp_all add: example_db_def)
  have expr: "users_rls example_db (Some 1) DELETE ?s"
    by (simp add: Admins_can_delete_users_def example_db_def example_user_def)
  have owner: "users_delete example_db Owner 3 =
       Inr (example_db\<lparr>users :=
         [example_user 1 ''admin'' regions_seed ''admin'',
          example_user 2 ''manager'' [''riyadh''] ''manager'',
          example_user 4 ''observer'' [''jeddah''] ''observer'']\<rparr>)"
    by (simp add: users_delete_def rewrite_def admits_def example_db_def example_user_def
        example_permit_def)
  show ?thesis
    using a s expr owner users_delete_rejected [of example_db "Some 1" 3] by blast
qed

section \<open>Writing the activity log\<close>

text \<open>
  C7. An insert into the activity log succeeds only when the \<open>user_id\<close> of the entry is the
  caller's id; with any other \<open>user_id\<close> it fails with an authorization error, whatever the
  caller's role, and nothing is stored.
\<close>

theorem activity_logs_insert_own_only:
  "(activity_logs_insert d uid e = Inr d' \<longrightarrow> uid = Some (activity_logs_user_id e))
   \<and> (uid \<noteq> Some (activity_logs_user_id e) \<longrightarrow>
        activity_logs_insert d uid e = Inl AuthorizationError
        \<and> commit d (activity_logs_insert d uid e) = d)"
  by (auto simp: activity_logs_insert_def commit_def
      All_authenticated_users_can_create_activity_logs_def split: if_splits)

theorem activity_logs_insert_own_only_witness:
  "Some 1 \<noteq> Some (activity_logs_user_id (example_log 2))
   \<and> activity_logs_insert example_db (Some 1) (example_log 2) = Inl AuthorizationError
   \<and> activity_logs_insert example_db (Some 1) (example_log 1) =
       Inr (example_db\<lparr>activity_logs := [example_log 1]\<rparr>)
   \<and> Some 1 = Some (activity_logs_user_id (example_log 1))"
proof -
  have other: "Some 1 \<noteq> Some (activity_logs_user_id (example_log 2))"
    by (simp add: example_log_def)
  have own: "activity_logs_insert example_db (Some 1) (example_log 1) =
      Inr (example_db\<lparr>activity_logs := [example_log 1]\<rparr>)"
    by (simp add: activity_logs_insert_def
        All_authenticated_users_can_create_activity_logs_def example_log_def example_db_def
        example_user_def)
  show ?thesis
    using activity_logs_insert_own_only [of example_db "Some 1" "example_log 2"]
      activity_logs_insert_own_only [of example_db "Some 1" "example_log 1"
        "example_db\<lparr>activity_logs := [example_log 1]\<rparr>"] other own
    by blast
qed

section \<open>Reference data\<close>

text \<open>
  C8 does not hold of the code. The expressions of the two \<open>SELECT\<close> policies hold for
  every caller with a row of \<open>users\<close>, but they read \<open>users\<close> under the \<open>SELECT\<close> policies
  of \<open>users\<close>: the rewriting of a caller's read of \<open>role_permissions\<close> or of \<open>regions\<close>
  recurses, and the read is rejected for every caller, whatever their role.
\<close>

theorem reference_reads_rejected:
  "role_permissions_select d (Caller uid) = Inl PolicyRecursion
   \<and> regions_select d (Caller uid) = Inl PolicyRecursion"
  by (simp add: role_permissions_select_def regions_select_def rewrite_caller_reads)

theorem reference_reads_rejected_witness:
  "example_user 4 ''observer'' [''jeddah''] ''observer'' \<in> set (users example_db)
   \<and> regions_rls example_db (Some 4) SELECT
        \<lparr>regions_id = 1, regions_code = ''riyadh'', regions_created_at = Some 0\<rparr>
   \<and> role_permissions_select example_db (Caller (Some 4)) = Inl PolicyRecursion
   \<and> regions_select example_db (Caller (Some 4)) = Inl PolicyRecursion"
proof -
  let ?o = "example_user 4 ''observer'' [''jeddah''] ''observer''"
  have mem: "?o \<in> set (users example_db)"
    by (simp add: example_db_def)
  have expr: "regions_rls example_db (Some 4) SELECT
        \<lparr>regions_id = 1, regions_code = ''riyadh'', regions_created_at = Some 0\<rparr>"
    by (simp add: All_authenticated_users_can_read_regions_def example_db_def
        example_user_def)
  show ?thesis
    using mem expr reference_reads_rejected [of example_db "Some 4"] by blast
qed

section \<open>The regions of a user\<close>

text \<open>
  C9 as stated fails: \<open>validate_user_regions\<close> accepts the empty array, and the insert
  of a user with no region by the owner of the tables, to whom no policy applies, is
  stored.
\<close>

theorem users_insert_empty_regions_accepted:
  "users_region (example_user 5 ''guest'' [] ''observer'') = []
   \<and> users_insert example_db Owner (example_user 5 ''guest'' [] ''observer'') =
       Inr (example_db\<lparr>users := users example_db @ [example_user 5 ''guest'' [] ''observer'']\<rparr>)"
  by (simp add: users_insert_def rewrite_def admits_def users_constraints_def
      users_regions_check_def users_role_check_def example_db_def example_user_def
      role_permissions_seed_def)

text \<open>
  C9, amended. A write that stores a user row, an insert or an update in any session, is
  accepted only if every element of the row's region set is a code of the region
  registry; the empty set is accepted. An insert of a user whose region set has a code
  outside the registry, in a session to which no policy applies, fails with a validation
  error and stores nothing.
\<close>

theorem users_write_regions_valid:
  "(users_insert d s row = Inr d' \<longrightarrow>
      d' = d\<lparr>users := users d @ [row]\<rparr>
      \<and> list_all (validate_region_code d') (users_region row))
   \<and> (users_set_where_id d s target changes = Inr d' \<and> d' \<noteq> d
        \<and> u \<in> set (users d') \<and> users_id u = target \<longrightarrow>
      list_all (validate_region_code d') (users_region u))
   \<and> (\<not> list_all (validate_region_code d) (users_region row) \<longrightarrow>
      users_insert d Owner row = Inl ValidationError
      \<and> commit d (users_insert d Owner row) = d)"
proof -
  have ins: "d' = d\<lparr>users := users d @ [row]\<rparr>
      \<and> list_all (validate_region_code d') (users_region row)"
    if "users_insert d s row = Inr d'"
    using that
    by (auto simp: users_insert_def users_constraints_def users_regions_check_def
        validate_user_regions_list_all validate_region_code_users
        split: if_splits option.splits)
  have upd: "list_all (validate_region_code d') (users_region u)"
    if res: "users_set_where_id d s target changes = Inr d'" and changed: "d' \<noteq> d"
      and mem: "u \<in> set (users d')" and target: "users_id u = target"
  proof -
    obtain old where old: "find (\<lambda>u. users_id u = target) (users d) = Some old"
      using res changed by (cases "find (\<lambda>u. users_id u = target) (users d)")
        (auto simp: users_set_where_id_def split: option.splits)
    let ?row = "(changes old)\<lparr>users_id := target\<rparr>"
    have stored: "d' = d\<lparr>users := map (\<lambda>u. if users_id u = target then ?row else u) (users d)\<rparr>"
      and valid: "users_regions_check d ?row"
      using res changed old
      by (auto simp: users_set_where_id_def users_constraints_def Let_def
          split: if_splits option.splits)
    have "u = ?row"
      using mem target stored by auto
    then show ?thesis
      using valid stored
      by (simp add: users_regions_check_def validate_user_regions_list_all
          validate_region_code_users)
  qed
  have bad: "users_insert d Owner row = Inl ValidationError
      \<and> commit d (users_insert d Owner row) = d"
    if "\<not> list_all (validate_region_code d) (users_region row)"
    using that
    by (simp add: users_insert_def rewrite_def admits_def users_constraints_def
        users_regions_check_def validate_user_regions_list_all commit_def)
  show ?thesis using ins upd bad by blast
qed

theorem users_write_regions_valid_witness:
  "users_insert example_db Owner (example_user 5 ''guest'' [''riyadh''] ''observer'') =
      Inr (example_db\<lparr>users := users example_db @
             [example_user 5 ''guest'' [''riyadh''] ''observer'']\<rparr>)
   \<and> list_all (validate_region_code example_db)
       (users_region (example_user 5 ''guest'' [''riyadh''] ''observer''))
   \<and> \<not> list_all (validate_region_code example_db)
       (users_region (example_user 5 ''guest'' [''riyadh'', ''atlantis''] ''observer''))
   \<and> users_insert example_db Owner
       (example_user 5 ''guest'' [''riyadh'', ''atlantis''] ''observer'') = Inl ValidationError"
proof -
  let ?good = "example_user 5 ''guest'' [''riyadh''] ''observer''"
  let ?bad = "example_user 5 ''guest'' [''riyadh'', ''atlantis''] ''observer''"
  let ?d' = "example_db\<lparr>users := users example_db @ [?good]\<rparr>"
  have stored: "users_insert example_db Owner ?good = Inr ?d'"
    by (simp add: users_insert_def rewrite_def admits_def users_constraints_def
        users_regions_check_def users_role_check_def validate_region_code_def
        example_db_def example_user_def role_permissions_seed_def regions_seed_def)
  have same: "validate_region_code ?d' = validate_region_code example_db"
    by (rule validate_region_code_users)
  have invalid: "\<not> list_all (validate_region_code example_db) (users_region ?bad)"
    by (simp add: validate_region_code_def example_db_def example_user_def regions_seed_def)
  show ?thesis
    using users_write_regions_valid [of example_db Owner ?good ?d']
      users_write_regions_valid [of example_db Owner ?bad]
      stored same invalid
    by simp
qed

section \<open>Idempotence of \<open>toSnakeCase\<close>\<close>

text \<open>
  C10 as stated fails. In \<open>{"_Proto__": null, "__proto__": 1, "aB": 2}\<close> the first key is
  renamed to \<open>__proto__\<close> and its value \<open>null\<close> becomes the prototype of the accumulator;
  the second key then finds no accessor and is stored as an own property. The second
  pass starts from \<open>{}\<close> again, where the assignment of \<open>1\<close> to \<open>__proto__\<close> is ignored:
  the property is lost and the two results differ.
\<close>

theorem toSnakeCase_not_idempotent:
  "toSnakeCase (JObject None [(''_Proto__'', JNull), (''__proto__'', JPrim (1::nat)),
       (''aB'', JPrim 2)])
     = JObject (Some JNull) [(''__proto__'', JPrim 1), (''a_b'', JPrim 2)]
   \<and> toSnakeCase (toSnakeCase (JObject None [(''_Proto__'', JNull),
       (''__proto__'', JPrim (1::nat)), (''aB'', JPrim 2)]))
     = JObject None [(''a_b'', JPrim 2)]"
  by code_simp

text \<open>
  C10, amended. \<open>toSnakeCase\<close> is idempotent on every JSON-like value in which no key of
  an object, at any depth, is \<open>__proto__\<close> or \<open>_Proto__\<close>: for such \<open>v\<close>,
  \<open>toSnakeCase (toSnakeCase v) = toSnakeCase v\<close>, and the output is made of plain objects
  with distinct keys none of which contains a letter of \<open>[A-Z]\<close>, so the second pass
  renames nothing.
\<close>

theorem toSnakeCase_idempotent:
  "no_proto_key v \<Longrightarrow>
     toSnakeCase (toSnakeCase v) = toSnakeCase v \<and> snake_cased (toSnakeCase v)"
  by (simp add: toSnakeCase_snake_cased snake_cased_toSnakeCase)

theorem toSnakeCase_idempotent_witness:
  "no_proto_key (JObject None [(''carrierName'', JPrim (1::nat)),
      (''materials'', JArray [JObject None [(''unitPrice'', JPrim 2), (''unit_price'', JNull)]])])
   \<and> toSnakeCase (toSnakeCase (JObject None [(''carrierName'', JPrim (1::nat)),
      (''materials'', JArray [JObject None [(''unitPrice'', JPrim 2), (''unit_price'', JNull)]])]))
   = JObject None [(''carrier_name'', JPrim 1),
      (''materials'', JArray [JObject None [(''unit_price'', JNull)]])]"
proof -
  let ?v = "JObject None [(''carrierName'', JPrim (1::nat)),
      (''materials'', JArray [JObject None [(''unitPrice'', JPrim 2), (''unit_price'', JNull)]])]"
  have h: "no_proto_key ?v"
    by simp
  have e: "toSnakeCase ?v = JObject None [(''carrier_name'', JPrim 1),
      (''materials'', JArray [JObject None [(''unit_price'', JNull)]])]"
    by code_simp
  show ?thesis
    using toSnakeCase_idempotent [OF h] h e by simp
qed

end
